theory Spec2Isabelle
  imports Main "HOL-Library.Word"
begin

section \<open>The Whisp contract: group registry and anonymous-signal validation\<close>

text \<open>
  A shallow embedding of the Solidity contract \<^verbatim>\<open>Whisp\<close> (pragma 0.8.24). Storage
  mappings are total functions whose default is the zero value of the value type, as in
  Solidity. Unsigned integers are words of their width. A \<^verbatim>\<open>require\<close> that fails, a
  checked-arithmetic panic and a failing call into the Semaphore contract are error
  values. Every function body returns its result together with the storage as it stands
  when the body stops; the transaction layer (\<open>transact\<close>) discards the storage of a
  failed body, which is what the EVM does on revert.
\<close>

subsection \<open>Data\<close>

type_synonym uint256 = "256 word"
type_synonym uint64 = "64 word"
type_synonym address = "160 word"
type_synonym bytes = "8 word list"

record GroupInfo =
  groupId :: uint256
  creator :: address
  createdAt :: uint64
  exists :: bool
  name :: string
  description :: string
  imageUrl :: string
  category :: string

text \<open>The value a storage mapping holds at a key that was never written.\<close>

definition zero_GroupInfo :: GroupInfo where
  "zero_GroupInfo =
     \<lparr>groupId = 0, creator = 0, createdAt = 0, exists = False,
      name = [], description = [], imageUrl = [], category = []\<rparr>"

text \<open>
  Modelled from the spec: the struct \<^verbatim>\<open>ISemaphore.SemaphoreProof\<close> is declared in
  \<^verbatim>\<open>interfaces/ISemaphore.sol\<close>, which is not part of the sources. The contract reads
  the fields \<^verbatim>\<open>nullifier\<close>, \<^verbatim>\<open>message\<close> and \<^verbatim>\<open>scope\<close>; the specification gives
  the nullifier as a large integer, message and scope as byte strings, and leaves the
  remaining fields to the proof scheme.
\<close>

record SemaphoreProof =
  nullifier :: uint256
  message :: bytes
  scope :: bytes
  scheme_fields :: "uint256 list"

datatype event =
    GroupCreated uint256 uint256 address string string string string uint64
  | MemberJoined uint256 uint256 address uint256 uint64
  | SignalSent uint256 uint256 uint256 uint256 uint256 uint64

text \<open>
  The storage of the contract, the state \<open>'e\<close> of the Semaphore contract it was
  constructed with, and the events emitted so far.
\<close>

record 'e Whisp =
  semaphore :: 'e
  nextGroupIndex :: uint256
  groups :: "uint256 \<Rightarrow> GroupInfo"
  hasJoined :: "uint256 \<Rightarrow> address \<Rightarrow> bool"
  nullifierUsed :: "uint256 \<Rightarrow> uint256 \<Rightarrow> bool"
  logs :: "event list"

text \<open>The state after the constructor: every storage slot is zero.\<close>

definition constructor :: "'e \<Rightarrow> 'e Whisp" where
  "constructor semaphore0 =
     \<lparr>semaphore = semaphore0, nextGroupIndex = 0, groups = (\<lambda>_. zero_GroupInfo),
      hasJoined = (\<lambda>_ _. False), nullifierUsed = (\<lambda>_ _. False), logs = []\<rparr>"

text \<open>What a call sees of its transaction: \<^verbatim>\<open>msg.sender\<close> and \<^verbatim>\<open>block.timestamp\<close>.\<close>

record tx_env =
  msg_sender :: address
  block_timestamp :: uint256

datatype 'x error =
    Group_not_found
  | Already_joined
  | Nullifier_already_used
  | Panic_overflow
  | Semaphore_reverted 'x

subsection \<open>The external services\<close>

text \<open>
  Modelled from the spec: the interface \<^verbatim>\<open>ISemaphore\<close> is not part of the sources.
  The contract calls \<^verbatim>\<open>createGroup\<close>, \<^verbatim>\<open>addMember\<close> and \<^verbatim>\<open>validateProof\<close> on it.
  Each is a function of the Semaphore contract's own state \<open>'e\<close> that either reverts
  with a reason \<open>'x\<close>, leaving that state as it was, or returns with a new state. The
  Semaphore contract is taken not to call back into Whisp.
\<close>

record ('e, 'x) ISemaphore =
  sem_createGroup :: "'e \<Rightarrow> 'x + uint256 \<times> 'e"
  sem_addMember :: "uint256 \<Rightarrow> uint256 \<Rightarrow> 'e \<Rightarrow> 'x + 'e"
  sem_validateProof :: "uint256 \<Rightarrow> SemaphoreProof \<Rightarrow> 'e \<Rightarrow> 'x + 'e"

text \<open>
  \<^verbatim>\<open>keccak256\<close> is a primitive of the EVM; every definition that hashes takes it as the
  parameter \<open>keccak256\<close>, a function from byte strings to 256-bit words.
  \<^verbatim>\<open>abi.encodePacked\<close> of a single byte string is that byte string.
\<close>

definition abi_encodePacked :: "bytes \<Rightarrow> bytes" where
  "abi_encodePacked b = b"

text \<open>\<^verbatim>\<open>uint256(keccak256(abi.encodePacked(x))) >> 8\<close>\<close>

definition field_hash :: "(bytes \<Rightarrow> uint256) \<Rightarrow> bytes \<Rightarrow> uint256" where
  "field_hash keccak256 x = drop_bit 8 (keccak256 (abi_encodePacked x))"

subsection \<open>The functions of the contract\<close>

definition createGroup ::
  "('e, 'x) ISemaphore \<Rightarrow> tx_env \<Rightarrow> string \<Rightarrow> string \<Rightarrow> string \<Rightarrow> string \<Rightarrow>
   'e Whisp \<Rightarrow> ('x error + uint256) \<times> 'e Whisp" where
  "createGroup S env name' description' imageUrl' category' st =
     (case sem_createGroup S (semaphore st) of
        Inl x \<Rightarrow> (Inl (Semaphore_reverted x), st)
      | Inr (gid, e') \<Rightarrow>
          let st1 = st\<lparr>semaphore := e'\<rparr> in
          if nextGroupIndex st1 = - 1 then (Inl Panic_overflow, st1)
          else
            let registryId = nextGroupIndex st1;
                st2 = st1\<lparr>nextGroupIndex := nextGroupIndex st1 + 1\<rparr>;
                timestamp = (ucast (block_timestamp env) :: uint64);
                st3 = st2\<lparr>groups := (groups st2)(registryId :=
                        \<lparr>groupId = gid, creator = msg_sender env, createdAt = timestamp,
                         exists = True, name = name', description = description',
                         imageUrl = imageUrl', category = category'\<rparr>)\<rparr>;
                st4 = st3\<lparr>logs := logs st3 @
                        [GroupCreated registryId gid (msg_sender env) name' description'
                           imageUrl' category' timestamp]\<rparr>
            in (Inr registryId, st4))"

definition joinGroup ::
  "('e, 'x) ISemaphore \<Rightarrow> tx_env \<Rightarrow> uint256 \<Rightarrow> uint256 \<Rightarrow>
   'e Whisp \<Rightarrow> ('x error + unit) \<times> 'e Whisp" where
  "joinGroup S env registryId identityCommitment st =
     (let g = groups st registryId in
      if \<not> exists g then (Inl Group_not_found, st)
      else if hasJoined st registryId (msg_sender env) then (Inl Already_joined, st)
      else
        case sem_addMember S (groupId g) identityCommitment (semaphore st) of
          Inl x \<Rightarrow> (Inl (Semaphore_reverted x), st)
        | Inr e' \<Rightarrow>
            let st1 = st\<lparr>semaphore := e'\<rparr>;
                st2 = st1\<lparr>hasJoined := (hasJoined st1)(registryId :=
                        (hasJoined st1 registryId)(msg_sender env := True))\<rparr>;
                st3 = st2\<lparr>logs := logs st2 @
                        [MemberJoined registryId (groupId g) (msg_sender env)
                           identityCommitment (ucast (block_timestamp env))]\<rparr>
            in (Inr (), st3))"

definition validateSignal ::
  "('e, 'x) ISemaphore \<Rightarrow> (bytes \<Rightarrow> uint256) \<Rightarrow> tx_env \<Rightarrow> uint256 \<Rightarrow> SemaphoreProof \<Rightarrow>
   'e Whisp \<Rightarrow> ('x error + unit) \<times> 'e Whisp" where
  "validateSignal S keccak256 env registryId proof st =
     (let g = groups st registryId in
      if \<not> exists g then (Inl Group_not_found, st)
      else if nullifierUsed st registryId (nullifier proof)
        then (Inl Nullifier_already_used, st)
      else
        case sem_validateProof S (groupId g) proof (semaphore st) of
          Inl x \<Rightarrow> (Inl (Semaphore_reverted x), st)
        | Inr e' \<Rightarrow>
            let st1 = st\<lparr>semaphore := e'\<rparr>;
                st2 = st1\<lparr>nullifierUsed := (nullifierUsed st1)(registryId :=
                        (nullifierUsed st1 registryId)(nullifier proof := True))\<rparr>;
                signalHash = field_hash keccak256 (message proof);
                scopeHash = field_hash keccak256 (scope proof);
                st3 = st2\<lparr>logs := logs st2 @
                        [SignalSent registryId (groupId g) signalHash scopeHash
                           (nullifier proof) (ucast (block_timestamp env))]\<rparr>
            in (Inr (), st3))"

definition isMember :: "'e Whisp \<Rightarrow> uint256 \<Rightarrow> address \<Rightarrow> bool" where
  "isMember st registryId user = hasJoined st registryId user"

definition getGroupInfo :: "'e Whisp \<Rightarrow> uint256 \<Rightarrow> GroupInfo" where
  "getGroupInfo st registryId = groups st registryId"

subsection \<open>Transactions\<close>

text \<open>
  A body that fails reverts: the state is the one before the call. A body that returns
  commits its state.
\<close>

definition transact :: "('s \<Rightarrow> ('err + 'r) \<times> 's) \<Rightarrow> 's \<Rightarrow> ('err + 'r) \<times> 's" where
  "transact body st =
     (case body st of (Inl e, _) \<Rightarrow> (Inl e, st) | (Inr r, st') \<Rightarrow> (Inr r, st'))"

text \<open>
  The state-changing entry points of the contract. \<open>exec\<close> runs one of them as a
  transaction and gives the words of its return data: one word for \<^verbatim>\<open>createGroup\<close>,
  none for \<^verbatim>\<open>joinGroup\<close> and \<^verbatim>\<open>validateSignal\<close>, which declare no return value.
\<close>

datatype call =
    CreateGroup string string string string
  | JoinGroup uint256 uint256
  | ValidateSignal uint256 SemaphoreProof

fun exec ::
  "('e, 'x) ISemaphore \<Rightarrow> (bytes \<Rightarrow> uint256) \<Rightarrow> tx_env \<times> call \<Rightarrow>
   'e Whisp \<Rightarrow> ('x error + uint256 list) \<times> 'e Whisp" where
  "exec S K (env, CreateGroup n d i c) st =
     (case transact (createGroup S env n d i c) st of
        (Inl e, st') \<Rightarrow> (Inl e, st') | (Inr r, st') \<Rightarrow> (Inr [r], st'))"
| "exec S K (env, JoinGroup r c) st =
     (case transact (joinGroup S env r c) st of
        (Inl e, st') \<Rightarrow> (Inl e, st') | (Inr _, st') \<Rightarrow> (Inr [], st'))"
| "exec S K (env, ValidateSignal r p) st =
     (case transact (validateSignal S K env r p) st of
        (Inl e, st') \<Rightarrow> (Inl e, st') | (Inr _, st') \<Rightarrow> (Inr [], st'))"

text \<open>A sequence of transactions, in order; \<open>run\<close> gives the final state.\<close>

fun run ::
  "('e, 'x) ISemaphore \<Rightarrow> (bytes \<Rightarrow> uint256) \<Rightarrow> (tx_env \<times> call) list \<Rightarrow>
   'e Whisp \<Rightarrow> 'e Whisp" where
  "run S K [] st = st"
| "run S K (c # cs) st = run S K cs (snd (exec S K c st))"

text \<open>
  The registry ids returned by the \<^verbatim>\<open>createGroup\<close> transactions of a sequence that
  succeed, in call order.
\<close>

fun assigned ::
  "('e, 'x) ISemaphore \<Rightarrow> (bytes \<Rightarrow> uint256) \<Rightarrow> (tx_env \<times> call) list \<Rightarrow>
   'e Whisp \<Rightarrow> uint256 list" where
  "assigned S K [] st = []"
| "assigned S K ((env, CreateGroup n d i c) # cs) st =
     (case exec S K (env, CreateGroup n d i c) st of
        (Inr ret, st') \<Rightarrow> ret @ assigned S K cs st'
      | (Inl e, st') \<Rightarrow> assigned S K cs st')"
| "assigned S K (c # cs) st = assigned S K cs (snd (exec S K c st))"

subsection \<open>A Semaphore stand-in for concrete runs\<close>

text \<open>
  A small implementation of the interface, for evaluating the contract on concrete
  inputs. Its state counts the groups created; group ids are handed out in order;
  \<^verbatim>\<open>addMember\<close> rejects the commitment 0; \<^verbatim>\<open>validateProof\<close> accepts a proof exactly
  when its scheme-specific part is not empty. The hash stand-in gives the length of its
  input, shifted into the top byte so that the shift in \<open>field_hash\<close> is visible.
\<close>

definition stub_semaphore :: "(nat, unit) ISemaphore" where
  "stub_semaphore =
     \<lparr>sem_createGroup = (\<lambda>e. Inr (of_nat e, Suc e)),
      sem_addMember = (\<lambda>gid c e. if c = 0 then Inl () else Inr e),
      sem_validateProof = (\<lambda>gid p e. if scheme_fields p = [] then Inl () else Inr e)\<rparr>"

definition stub_keccak256 :: "bytes \<Rightarrow> uint256" where
  "stub_keccak256 b = push_bit 8 (of_nat (length b))"

subsection \<open>Notions used by the properties\<close>

text \<open>
  The invariant of the registry: a record exists exactly below \<open>nextGroupIndex\<close>, and
  at and above it every mapping still holds its zero value.
\<close>

definition registry_inv :: "'e Whisp \<Rightarrow> bool" where
  "registry_inv st \<longleftrightarrow>
     (\<forall>r. (exists (groups st r) \<longleftrightarrow> r < nextGroupIndex st) \<and>
          (\<not> r < nextGroupIndex st \<longrightarrow>
             groups st r = zero_GroupInfo \<and> hasJoined st r = (\<lambda>_. False) \<and>
             nullifierUsed st r = (\<lambda>_. False)))"

text \<open>The two hashes a \<^verbatim>\<open>SignalSent\<close> event carries.\<close>

fun signal_hashes :: "event \<Rightarrow> (uint256 \<times> uint256) option" where
  "signal_hashes (SignalSent r g signalHash scopeHash n t) = Some (signalHash, scopeHash)"
| "signal_hashes _ = None"

text \<open>
  \<open>joined_in S K r a cs st\<close>: some transaction of \<open>cs\<close>, run from \<open>st\<close>, is a
  \<^verbatim>\<open>joinGroup\<close> for registry id \<open>r\<close> sent by \<open>a\<close> that returns.
\<close>

fun is_join_by :: "uint256 \<Rightarrow> address \<Rightarrow> tx_env \<times> call \<Rightarrow> bool" where
  "is_join_by r a (env, JoinGroup r' cm) = (r' = r \<and> msg_sender env = a)"
| "is_join_by r a (env, CreateGroup n d i c) = False"
| "is_join_by r a (env, ValidateSignal r' p) = False"

fun joined_in ::
  "('e, 'x) ISemaphore \<Rightarrow> (bytes \<Rightarrow> uint256) \<Rightarrow> uint256 \<Rightarrow> address \<Rightarrow>
   (tx_env \<times> call) list \<Rightarrow> 'e Whisp \<Rightarrow> bool" where
  "joined_in S K r a [] st = False"
| "joined_in S K r a (c # cs) st =
     ((is_join_by r a c \<and> isl (fst (exec S K c st)) = False) \<or>
      joined_in S K r a cs (snd (exec S K c st)))"

subsection \<open>A concrete scenario\<close>

text \<open>
  Two callers; \<open>proof_N1\<close>, with nullifier 11, message "hello" and scope "daily", which
  the stand-in verifier accepts; \<open>replay_N1\<close>, with the same nullifier, another message
  and scope, which the stand-in verifier would reject; and the states after Alice
  created group 0 and after a first signal in it.
\<close>

definition alice :: tx_env where
  "alice = \<lparr>msg_sender = 0xA11CE, block_timestamp = 1700000000\<rparr>"

definition bob :: tx_env where
  "bob = \<lparr>msg_sender = 0xB0B, block_timestamp = 1700000060\<rparr>"

definition proof_N1 :: SemaphoreProof where
  "proof_N1 = \<lparr>nullifier = 11, message = [104, 101, 108, 108, 111],
      scope = [100, 97, 105, 108, 121], scheme_fields = [1]\<rparr>"

definition replay_N1 :: SemaphoreProof where
  "replay_N1 = \<lparr>nullifier = 11, message = [98, 121, 101], scope = [], scheme_fields = []\<rparr>"

definition st_group0 :: "nat Whisp" where
  "st_group0 = run stub_semaphore stub_keccak256
     [(alice, CreateGroup ''zk-Builders'' ''builders'' [] ''DAO'')] (constructor 0)"

definition st_signal1 :: "nat Whisp" where
  "st_signal1 = snd (validateSignal stub_semaphore stub_keccak256 alice 0 proof_N1 st_group0)"

text \<open>
  \<open>proof_N2\<close> has the message and scope of \<open>proof_N1\<close> and another nullifier;
  \<open>bad_proof\<close> has a fresh nullifier and is rejected by the stand-in verifier. The
  remaining states have two groups: as created, after a signal in group 0, and after Bob
  joined group 0.
\<close>

definition proof_N2 :: SemaphoreProof where
  "proof_N2 = \<lparr>nullifier = 22, message = [104, 101, 108, 108, 111],
      scope = [100, 97, 105, 108, 121], scheme_fields = [2]\<rparr>"

definition bad_proof :: SemaphoreProof where
  "bad_proof = \<lparr>nullifier = 12, message = [], scope = [], scheme_fields = []\<rparr>"

definition st_two :: "nat Whisp" where
  "st_two = run stub_semaphore stub_keccak256
     [(alice, CreateGroup ''zk-Builders'' ''builders'' [] ''DAO''),
      (bob, CreateGroup ''voters'' ''ballots'' [] ''Vote'')] (constructor 0)"

definition st_two_signal :: "nat Whisp" where
  "st_two_signal = snd (validateSignal stub_semaphore stub_keccak256 alice 0 proof_N1 st_two)"

definition st_two_join :: "nat Whisp" where
  "st_two_join = snd (joinGroup stub_semaphore bob 0 5 st_two)"

lemmas scenario_defs = alice_def bob_def proof_N1_def replay_N1_def st_group0_def st_signal1_def
  stub_semaphore_def stub_keccak256_def constructor_def zero_GroupInfo_def
  createGroup_def joinGroup_def validateSignal_def transact_def field_hash_def
  abi_encodePacked_def Let_def

section \<open>Properties\<close>

subsection \<open>What a call that returns has done\<close>

lemma createGroup_Inr:
  assumes "createGroup S env n d i c st = (Inr r, st')"
  shows "\<exists>gid e'. sem_createGroup S (semaphore st) = Inr (gid, e') \<and>
           nextGroupIndex st \<noteq> - 1 \<and> r = nextGroupIndex st \<and>
           st' = st\<lparr>semaphore := e', nextGroupIndex := nextGroupIndex st + 1,
                     groups := (groups st)(nextGroupIndex st :=
                        \<lparr>groupId = gid, creator = msg_sender env,
                         createdAt = ucast (block_timestamp env),
                         exists = True, name = n, description = d,
                         imageUrl = i, category = c\<rparr>),
                     logs := logs st @
                        [GroupCreated (nextGroupIndex st) gid (msg_sender env) n d i c
                           (ucast (block_timestamp env))]\<rparr>"
  using assms
  by (auto simp: createGroup_def Let_def split: sum.splits prod.splits if_splits)

lemma joinGroup_Inr:
  assumes "joinGroup S env r c st = (Inr u, st')"
  shows "\<exists>e'. exists (groups st r) \<and> \<not> hasJoined st r (msg_sender env) \<and>
           sem_addMember S (groupId (groups st r)) c (semaphore st) = Inr e' \<and>
           st' = st\<lparr>semaphore := e',
                     hasJoined := (hasJoined st)(r := (hasJoined st r)(msg_sender env := True)),
                     logs := logs st @
                        [MemberJoined r (groupId (groups st r)) (msg_sender env) c
                           (ucast (block_timestamp env))]\<rparr>"
  using assms
  by (auto simp: joinGroup_def Let_def split: sum.splits prod.splits if_splits)

lemma validateSignal_Inr:
  assumes "validateSignal S K env r p st = (Inr u, st')"
  shows "\<exists>e'. exists (groups st r) \<and> \<not> nullifierUsed st r (nullifier p) \<and>
           sem_validateProof S (groupId (groups st r)) p (semaphore st) = Inr e' \<and>
           st' = st\<lparr>semaphore := e',
                     nullifierUsed := (nullifierUsed st)(r := (nullifierUsed st r)(nullifier p := True)),
                     logs := logs st @
                        [SignalSent r (groupId (groups st r)) (field_hash K (message p))
                           (field_hash K (scope p)) (nullifier p)
                           (ucast (block_timestamp env))]\<rparr>"
  using assms
  by (auto simp: validateSignal_def Let_def split: sum.splits prod.splits if_splits)

lemma joinGroup_Inl: "joinGroup S env r c st = (Inl e, st') \<Longrightarrow> st' = st"
  by (auto simp: joinGroup_def Let_def split: sum.splits if_splits)

lemma validateSignal_Inl: "validateSignal S K env r p st = (Inl e, st') \<Longrightarrow> st' = st"
  by (auto simp: validateSignal_def Let_def split: sum.splits if_splits)

lemma transact_Inl: "transact body st = (Inl e, st') \<Longrightarrow> st' = st"
  by (auto simp: transact_def split: prod.splits sum.splits)

lemma transact_Inr: "transact body st = (Inr r, st') \<Longrightarrow> body st = (Inr r, st')"
  by (auto simp: transact_def split: prod.splits sum.splits)

lemma exec_Inl: "exec S K c st = (Inl e, st') \<Longrightarrow> st' = st"
  by (cases "(S, K, c, st)" rule: exec.cases)
     (auto split: prod.splits sum.splits dest: transact_Inl)

lemma exec_CreateGroup_Inr:
  "exec S K (env, CreateGroup n d i c) st = (Inr ret, st') \<Longrightarrow>
     \<exists>r. ret = [r] \<and> createGroup S env n d i c st = (Inr r, st')"
  by (auto split: prod.splits sum.splits dest: transact_Inr)

lemma exec_JoinGroup_Inr:
  "exec S K (env, JoinGroup r c) st = (Inr ret, st') \<Longrightarrow>
     ret = [] \<and> joinGroup S env r c st = (Inr (), st')"
  by (auto split: prod.splits sum.splits dest: transact_Inr)

lemma exec_ValidateSignal_Inr:
  "exec S K (env, ValidateSignal r p) st = (Inr ret, st') \<Longrightarrow>
     ret = [] \<and> validateSignal S K env r p st = (Inr (), st')"
  by (auto split: prod.splits sum.splits dest: transact_Inr)

lemma word_less_inc:
  fixes n r :: "'a::len word"
  assumes "n \<noteq> - 1"
  shows "r < n + 1 \<longleftrightarrow> r < n \<or> r = n"
proof -
  from assms have "1 + n \<noteq> 0"
    by (simp add: eq_neg_iff_add_eq_0 add.commute)
  then have "unat (1 + n) = Suc (unat n)"
    by (rule unatSuc)
  then have "unat (n + 1) = Suc (unat n)"
    by (simp add: add.commute)
  then show ?thesis
    by (auto simp: word_less_nat_alt word_unat_eq_iff)
qed

lemma createGroup_fields:
  assumes "createGroup S env n d i c st = (Inr r, st')"
  shows "nextGroupIndex st \<noteq> - 1" and "r = nextGroupIndex st"
    and "nextGroupIndex st' = nextGroupIndex st + 1"
    and "exists (groups st' r)"
    and "\<And>q. q \<noteq> r \<Longrightarrow> groups st' q = groups st q"
    and "hasJoined st' = hasJoined st"
    and "nullifierUsed st' = nullifierUsed st"
  using createGroup_Inr [OF assms] by auto

lemma joinGroup_fields:
  assumes "joinGroup S env r c st = (Inr u, st')"
  shows "exists (groups st r)" and "\<not> hasJoined st r (msg_sender env)"
    and "nextGroupIndex st' = nextGroupIndex st"
    and "groups st' = groups st"
    and "hasJoined st' = (hasJoined st)(r := (hasJoined st r)(msg_sender env := True))"
    and "nullifierUsed st' = nullifierUsed st"
  using joinGroup_Inr [OF assms] by auto

lemma validateSignal_fields:
  assumes "validateSignal S K env r p st = (Inr u, st')"
  shows "exists (groups st r)" and "\<not> nullifierUsed st r (nullifier p)"
    and "nextGroupIndex st' = nextGroupIndex st"
    and "groups st' = groups st"
    and "hasJoined st' = hasJoined st"
    and "nullifierUsed st' =
           (nullifierUsed st)(r := (nullifierUsed st r)(nullifier p := True))"
  using validateSignal_Inr [OF assms] by auto

lemma registry_inv_constructor: "registry_inv (constructor e0)"
  by (simp add: registry_inv_def constructor_def zero_GroupInfo_def)

lemma registry_inv_createGroup:
  assumes "registry_inv st" and "createGroup S env n d i c st = (Inr r, st')"
  shows "registry_inv st'"
proof -
  note f = createGroup_fields [OF assms(2)]
  have lt: "\<And>q. q < nextGroupIndex st' \<longleftrightarrow> q < nextGroupIndex st \<or> q = r"
    using f(1) by (simp add: f(2,3) word_less_inc)
  have "\<not> r < nextGroupIndex st"
    by (simp add: f(2))
  show ?thesis
    unfolding registry_inv_def
  proof (intro allI conjI impI)
    fix q
    show "exists (groups st' q) = (q < nextGroupIndex st')"
      using assms(1) f(4) f(5) [of q] unfolding lt registry_inv_def by (cases "q = r") auto
  next
    fix q assume "\<not> q < nextGroupIndex st'"
    then have q: "q \<noteq> r" "\<not> q < nextGroupIndex st"
      unfolding lt by auto
    with assms(1) have "groups st q = zero_GroupInfo \<and> hasJoined st q = (\<lambda>_. False) \<and>
             nullifierUsed st q = (\<lambda>_. False)"
      unfolding registry_inv_def by blast
    then show "groups st' q = zero_GroupInfo" "hasJoined st' q = (\<lambda>_. False)"
       "nullifierUsed st' q = (\<lambda>_. False)"
      using f(5) [OF q(1)] by (simp_all add: f(6,7))
  qed
qed

lemma registry_inv_joinGroup:
  assumes "registry_inv st" and "joinGroup S env r c st = (Inr u, st')"
  shows "registry_inv st'"
proof -
  note f = joinGroup_fields [OF assms(2)]
  from assms(1) f(1) have r: "r < nextGroupIndex st"
    unfolding registry_inv_def by blast
  show ?thesis
    unfolding registry_inv_def
  proof (intro allI conjI impI)
    fix q
    show "exists (groups st' q) = (q < nextGroupIndex st')"
      using assms(1) unfolding registry_inv_def by (simp add: f(3,4))
  next
    fix q assume "\<not> q < nextGroupIndex st'"
    then have q: "q \<noteq> r" "\<not> q < nextGroupIndex st"
      using r by (auto simp: f(3))
    with assms(1) have "groups st q = zero_GroupInfo \<and> hasJoined st q = (\<lambda>_. False) \<and>
             nullifierUsed st q = (\<lambda>_. False)"
      unfolding registry_inv_def by blast
    then show "groups st' q = zero_GroupInfo" "hasJoined st' q = (\<lambda>_. False)"
       "nullifierUsed st' q = (\<lambda>_. False)"
      using q(1) by (simp_all add: f(4,5,6))
  qed
qed

lemma registry_inv_validateSignal:
  assumes "registry_inv st" and "validateSignal S K env r p st = (Inr u, st')"
  shows "registry_inv st'"
proof -
  note f = validateSignal_fields [OF assms(2)]
  from assms(1) f(1) have r: "r < nextGroupIndex st"
    unfolding registry_inv_def by blast
  show ?thesis
    unfolding registry_inv_def
  proof (intro allI conjI impI)
    fix q
    show "exists (groups st' q) = (q < nextGroupIndex st')"
      using assms(1) unfolding registry_inv_def by (simp add: f(3,4))
  next
    fix q assume "\<not> q < nextGroupIndex st'"
    then have q: "q \<noteq> r" "\<not> q < nextGroupIndex st"
      using r by (auto simp: f(3))
    with assms(1) have "groups st q = zero_GroupInfo \<and> hasJoined st q = (\<lambda>_. False) \<and>
             nullifierUsed st q = (\<lambda>_. False)"
      unfolding registry_inv_def by blast
    then show "groups st' q = zero_GroupInfo" "hasJoined st' q = (\<lambda>_. False)"
       "nullifierUsed st' q = (\<lambda>_. False)"
      using q(1) by (simp_all add: f(4,5,6))
  qed
qed

lemma registry_inv_exec:
  assumes "registry_inv st"
  shows "registry_inv (snd (exec S K c st))"
proof (cases "exec S K c st")
  case (Pair res st')
  show ?thesis
  proof (cases res)
    case (Inl e)
    with Pair have "st' = st" by (auto dest: exec_Inl)
    with Pair assms show ?thesis by simp
  next
    case (Inr ret)
    obtain env cl where c: "c = (env, cl)" by (cases c)
    have "registry_inv st'"
    proof (cases cl)
      case (CreateGroup n d i ct)
      with Pair Inr c have "exec S K (env, CreateGroup n d i ct) st = (Inr ret, st')"
        by simp
      from exec_CreateGroup_Inr [OF this]
      obtain r where "createGroup S env n d i ct st = (Inr r, st')"
        by blast
      with assms show ?thesis by (rule registry_inv_createGroup)
    next
      case (JoinGroup r cm)
      with Pair Inr c have "exec S K (env, JoinGroup r cm) st = (Inr ret, st')"
        by simp
      from exec_JoinGroup_Inr [OF this]
      have "joinGroup S env r cm st = (Inr (), st')"
        by blast
      with assms show ?thesis by (rule registry_inv_joinGroup)
    next
      case (ValidateSignal r p)
      with Pair Inr c have "exec S K (env, ValidateSignal r p) st = (Inr ret, st')"
        by simp
      from exec_ValidateSignal_Inr [OF this]
      have "validateSignal S K env r p st = (Inr (), st')"
        by blast
      with assms show ?thesis by (rule registry_inv_validateSignal)
    qed
    with Pair show ?thesis by simp
  qed
qed

lemma registry_inv_run: "registry_inv st \<Longrightarrow> registry_inv (run S K cs st)"
  by (induction cs arbitrary: st) (auto intro: registry_inv_exec simp del: exec.simps)

subsection \<open>Transactions and what they preserve\<close>

lemma exec_cases:
  assumes "exec S K c st = (res, st')"
  obtains (Fail) e where "res = Inl e" and "st' = st"
  | (Create) env n d i ct r where "c = (env, CreateGroup n d i ct)" and "res = Inr [r]"
      and "createGroup S env n d i ct st = (Inr r, st')"
  | (Join) env r cm where "c = (env, JoinGroup r cm)" and "res = Inr []"
      and "joinGroup S env r cm st = (Inr (), st')"
  | (Signal) env r p where "c = (env, ValidateSignal r p)" and "res = Inr []"
      and "validateSignal S K env r p st = (Inr (), st')"
proof (cases res)
  case (Inl e)
  with assms have "st' = st" by (auto dest: exec_Inl)
  with Inl show ?thesis by (rule Fail)
next
  case (Inr ret)
  obtain env cl where c: "c = (env, cl)" by (cases c)
  show ?thesis
  proof (cases cl)
    case (CreateGroup n d i ct)
    with assms Inr c have "exec S K (env, CreateGroup n d i ct) st = (Inr ret, st')"
      by simp
    from exec_CreateGroup_Inr [OF this] c CreateGroup Inr show ?thesis
      by (auto intro: Create)
  next
    case (JoinGroup r cm)
    with assms Inr c have "exec S K (env, JoinGroup r cm) st = (Inr ret, st')"
      by simp
    from exec_JoinGroup_Inr [OF this] c JoinGroup Inr show ?thesis
      by (auto intro: Join)
  next
    case (ValidateSignal r p)
    with assms Inr c have "exec S K (env, ValidateSignal r p) st = (Inr ret, st')"
      by simp
    from exec_ValidateSignal_Inr [OF this] c ValidateSignal Inr show ?thesis
      by (auto intro: Signal)
  qed
qed

lemma exists_exec:
  assumes "exists (groups st q)"
  shows "exists (groups (snd (exec S K c st)) q)"
proof (cases "exec S K c st")
  case (Pair res st')
  then have "exists (groups st' q)"
  proof (cases rule: exec_cases)
    case (Fail e)
    with assms show ?thesis by simp
  next
    case (Create env n d i ct r)
    from createGroup_fields(4,5) [OF Create(3)] assms show ?thesis
      by (cases "q = r") auto
  next
    case (Join env r cm)
    from joinGroup_fields(4) [OF Join(3)] assms show ?thesis by simp
  next
    case (Signal env r p)
    from validateSignal_fields(4) [OF Signal(3)] assms show ?thesis by simp
  qed
  with Pair show ?thesis by simp
qed

lemma nullifierUsed_exec:
  assumes "nullifierUsed st q n"
  shows "nullifierUsed (snd (exec S K c st)) q n"
proof (cases "exec S K c st")
  case (Pair res st')
  then have "nullifierUsed st' q n"
  proof (cases rule: exec_cases)
    case (Fail e)
    with assms show ?thesis by simp
  next
    case (Create env n d i ct r)
    from createGroup_fields(7) [OF Create(3)] assms show ?thesis by simp
  next
    case (Join env r cm)
    from joinGroup_fields(6) [OF Join(3)] assms show ?thesis by simp
  next
    case (Signal env r p)
    from validateSignal_fields(6) [OF Signal(3)] assms show ?thesis by auto
  qed
  with Pair show ?thesis by simp
qed

lemma hasJoined_exec:
  assumes "hasJoined st q a"
  shows "hasJoined (snd (exec S K c st)) q a"
proof (cases "exec S K c st")
  case (Pair res st')
  then have "hasJoined st' q a"
  proof (cases rule: exec_cases)
    case (Fail e)
    with assms show ?thesis by simp
  next
    case (Create env n d i ct r)
    from createGroup_fields(6) [OF Create(3)] assms show ?thesis by simp
  next
    case (Join env r cm)
    from joinGroup_fields(5) [OF Join(3)] assms show ?thesis by auto
  next
    case (Signal env r p)
    from validateSignal_fields(5) [OF Signal(3)] assms show ?thesis by simp
  qed
  with Pair show ?thesis by simp
qed

lemma exists_run: "exists (groups st q) \<Longrightarrow> exists (groups (run S K cs st) q)"
  by (induction cs arbitrary: st) (auto intro: exists_exec simp del: exec.simps)

lemma nullifierUsed_run: "nullifierUsed st q n \<Longrightarrow> nullifierUsed (run S K cs st) q n"
  by (induction cs arbitrary: st) (auto intro: nullifierUsed_exec simp del: exec.simps)

lemma hasJoined_run: "hasJoined st q a \<Longrightarrow> hasJoined (run S K cs st) q a"
  by (induction cs arbitrary: st) (auto intro: hasJoined_exec simp del: exec.simps)

lemma validateSignal_used:
  "exists (groups st r) \<Longrightarrow> nullifierUsed st r (nullifier p) \<Longrightarrow>
     validateSignal S K env r p st = (Inl Nullifier_already_used, st)"
  by (simp add: validateSignal_def)

lemma joinGroup_joined:
  "exists (groups st r) \<Longrightarrow> hasJoined st r (msg_sender env) \<Longrightarrow>
     joinGroup S env r c st = (Inl Already_joined, st)"
  by (simp add: joinGroup_def)

lemma isMember_exec:
  "isMember (snd (exec S K c st)) r a \<longleftrightarrow>
     isMember st r a \<or> (is_join_by r a c \<and> isl (fst (exec S K c st)) = False)"
proof (cases "exec S K c st")
  case (Pair res st')
  then have "isMember st' r a \<longleftrightarrow> isMember st r a \<or> (is_join_by r a c \<and> isl res = False)"
  proof (cases rule: exec_cases)
    case (Fail e)
    then show ?thesis by simp
  next
    case (Create env n d i ct q)
    from createGroup_fields(6) [OF Create(3)] Create(1) show ?thesis
      by (simp add: isMember_def)
  next
    case (Join env q cm)
    from joinGroup_fields(5) [OF Join(3)] Join(1,2) show ?thesis
      by (auto simp: isMember_def)
  next
    case (Signal env q p)
    from validateSignal_fields(5) [OF Signal(3)] Signal(1) show ?thesis
      by (simp add: isMember_def)
  qed
  with Pair show ?thesis by simp
qed

lemma isMember_run:
  "isMember (run S K cs st) r a \<longleftrightarrow> isMember st r a \<or> joined_in S K r a cs st"
proof (induction cs arbitrary: st)
  case Nil
  show ?case by simp
next
  case (Cons c cs)
  have "isMember (run S K (c # cs) st) r a \<longleftrightarrow>
      isMember (snd (exec S K c st)) r a \<or> joined_in S K r a cs (snd (exec S K c st))"
    using Cons.IH [of "snd (exec S K c st)"] by simp
  also have "\<dots> \<longleftrightarrow> isMember st r a \<or> joined_in S K r a (c # cs) st"
    unfolding isMember_exec [of S K c st r a] joined_in.simps by blast
  finally show ?case .
qed

subsection \<open>Registry ids\<close>

lemma assigned_step:
  assumes "exec S K c st = (res, st')"
  shows "assigned S K (c # cs) st =
           (case (snd c, res) of (CreateGroup n d i ct, Inr ret) \<Rightarrow> ret | _ \<Rightarrow> []) @
           assigned S K cs st'"
proof -
  obtain env cl where c: "c = (env, cl)" by (cases c)
  show ?thesis
    using assms unfolding c
    by (cases cl; cases res) (simp_all del: exec.simps)
qed

lemma unat_inc: "(n::'a::len word) \<noteq> - 1 \<Longrightarrow> unat (n + 1) = Suc (unat n)"
  using unatSuc [of n] by (simp add: eq_neg_iff_add_eq_0 add.commute)

lemma upt_shift: "[n ..< n + Suc k] = n # [Suc n ..< Suc n + k]"
proof -
  have "n < n + Suc k" by simp
  then have "[n ..< n + Suc k] = n # [Suc n ..< n + Suc k]" by (rule upt_conv_Cons)
  then show ?thesis by (simp only: add_Suc_right add_Suc)
qed

lemma assigned_from:
  "\<exists>k. assigned S K cs st =
         map of_nat [unat (nextGroupIndex st) ..< unat (nextGroupIndex st) + k] \<and>
       unat (nextGroupIndex (run S K cs st)) = unat (nextGroupIndex st) + k"
proof (induction cs arbitrary: st)
  case Nil
  show ?case by simp
next
  case (Cons c cs)
  obtain res st' where ex: "exec S K c st = (res, st')"
    by (cases "exec S K c st")
  note step = assigned_step [OF ex, of cs]
  have run: "run S K (c # cs) st = run S K cs st'"
    using ex by simp
  from Cons.IH [of st'] obtain k where
    t: "assigned S K cs st' =
         map of_nat [unat (nextGroupIndex st') ..< unat (nextGroupIndex st') + k]"
    and l: "unat (nextGroupIndex (run S K cs st')) = unat (nextGroupIndex st') + k"
    by blast
  have same: ?case
    if nx: "nextGroupIndex st' = nextGroupIndex st"
      and aa: "assigned S K (c # cs) st = assigned S K cs st'"
  proof -
    from t l have "assigned S K cs st' =
          map of_nat [unat (nextGroupIndex st) ..< unat (nextGroupIndex st) + k] \<and>
        unat (nextGroupIndex (run S K cs st')) = unat (nextGroupIndex st) + k"
      unfolding nx by (rule conjI)
    then show ?thesis
      unfolding run aa by (rule exI)
  qed
  from ex show ?case
  proof (cases rule: exec_cases)
    case (Fail e)
    have "assigned S K (c # cs) st = assigned S K cs st'"
      using step Fail(1) by (simp split: call.splits)
    with Fail(2) show ?thesis
      by (intro same) simp_all
  next
    case (Create env n d i ct r)
    note f = createGroup_fields [OF Create(3)]
    have a: "assigned S K (c # cs) st = r # assigned S K cs st'"
      using step Create(1,2) by simp
    have u: "unat (nextGroupIndex st') = Suc (unat (nextGroupIndex st))"
      using f(1) by (simp add: f(3) unat_inc)
    have r: "r = of_nat (unat (nextGroupIndex st))"
      by (simp add: f(2))
    have "r # assigned S K cs st' =
        map of_nat [unat (nextGroupIndex st) ..< unat (nextGroupIndex st) + Suc k]"
      unfolding upt_shift list.map
      by (rule arg_cong2 [where f = Cons]) (rule r, rule t [unfolded u])
    moreover have "unat (nextGroupIndex (run S K cs st')) = unat (nextGroupIndex st) + Suc k"
      using l unfolding u by simp
    ultimately have "r # assigned S K cs st' =
          map of_nat [unat (nextGroupIndex st) ..< unat (nextGroupIndex st) + Suc k] \<and>
        unat (nextGroupIndex (run S K cs st')) = unat (nextGroupIndex st) + Suc k"
      by (rule conjI)
    then show ?thesis
      unfolding run a by (rule exI)
  next
    case (Join env r cm)
    have "assigned S K (c # cs) st = assigned S K cs st'"
      using step Join(1,2) by simp
    with joinGroup_fields(3) [OF Join(3)] show ?thesis
      by (rule same)
  next
    case (Signal env r p)
    have "assigned S K (c # cs) st = assigned S K cs st'"
      using step Signal(1,2) by simp
    with validateSignal_fields(3) [OF Signal(3)] show ?thesis
      by (rule same)
  qed
qed

lemma distinct_of_nat_upt:
  assumes "k < 2 ^ LENGTH('a::len)"
  shows "distinct (map (of_nat :: nat \<Rightarrow> 'a word) [0..<k])"
proof -
  have "inj_on (of_nat :: nat \<Rightarrow> 'a word) {0..<k}"
  proof (rule inj_onI)
    fix x y assume "x \<in> {0..<k}" "y \<in> {0..<k}" and eq: "(of_nat x :: 'a word) = of_nat y"
    with assms have x: "x < 2 ^ LENGTH('a)" and y: "y < 2 ^ LENGTH('a)" by auto
    have ux: "unat (of_nat x :: 'a word) = x"
      using refl x by (rule of_nat_inverse)
    have uy: "unat (of_nat y :: 'a word) = y"
      using refl y by (rule of_nat_inverse)
    from eq have "unat (of_nat x :: 'a word) = unat (of_nat y :: 'a word)"
      by (rule arg_cong)
    then show "x = y"
      unfolding ux uy .
  qed
  then show ?thesis by (simp add: distinct_map)
qed


subsection \<open>Signal hashes\<close>

lemma validateSignal_logs:
  assumes "validateSignal S K env r p st = (Inr u, st')"
  shows "logs st' = logs st @
           [SignalSent r (groupId (groups st r)) (field_hash K (message p))
              (field_hash K (scope p)) (nullifier p) (ucast (block_timestamp env))]"
  using validateSignal_Inr [OF assms] by auto

lemma validateSignal_hashes:
  assumes "validateSignal S K env r p st = (Inr u, st')"
  shows "signal_hashes (last (logs st')) =
           Some (drop_bit 8 (K (message p)), drop_bit 8 (K (scope p)))"
  unfolding validateSignal_logs [OF assms]
  by (simp add: field_hash_def abi_encodePacked_def)

lemma drop_bit_8_bound: "unat (drop_bit 8 (w :: uint256)) < 2 ^ 248"
proof -
  have "unat w < 2 ^ 8 * 2 ^ 248"
    using unsigned_less [of w, where 'a = nat] by (simp only: power_add [symmetric]) simp
  then have d: "unat w div 2 ^ 8 < 2 ^ 248"
    by (simp only: less_mult_imp_div_less mult.commute)
  have "unat (drop_bit 8 w) = drop_bit 8 (unat w)"
    by (rule unat_drop_bit_eq)
  also have "\<dots> = unat w div 2 ^ 8"
    by (rule drop_bit_eq_div)
  finally show ?thesis
    using d by (simp only:)
qed

lemma drop_bit_8_top: "drop_bit 248 (drop_bit 8 (w :: uint256)) = 0"
proof -
  have "drop_bit 248 (drop_bit 8 w) = drop_bit 256 w"
    by simp
  also have "\<dots> = 0"
    by (rule bit_word_eqI) (simp add: bit_drop_bit_eq bit_word_iff_drop_bit_and)
  finally show ?thesis .
qed

section \<open>The claims\<close>

subsection \<open>Nullifiers are accepted at most once per group\<close>

text \<open>
  Claim C1. Once \<^verbatim>\<open>validateSignal\<close> has succeeded for registry id \<open>r\<close> with a proof
  whose nullifier is \<open>n\<close>, then after any further sequence of transactions the pair
  \<open>(r, n)\<close> is still marked used, and every \<^verbatim>\<open>validateSignal\<close> for \<open>r\<close> with a proof
  carrying \<open>n\<close> fails with "Nullifier already used" and leaves the state as it is,
  whatever its message and scope. The later call is stated for an arbitrary Semaphore
  \<open>S'\<close> and hash \<open>K'\<close>: its outcome does not depend on what the verifier would answer,
  the verifier is not reached.
\<close>

theorem C1_nullifier_accepted_at_most_once:
  assumes "validateSignal S K env r p st = (Inr (), st1)"
    and "nullifier p' = nullifier p"
  shows "nullifierUsed (run S K cs st1) r (nullifier p) \<and>
         validateSignal S' K' env' r p' (run S K cs st1) =
           (Inl Nullifier_already_used, run S K cs st1)"
proof -
  note f = validateSignal_fields [OF assms(1)]
  have "exists (groups st1 r)"
    using f(1) by (simp add: f(4))
  then have ex: "exists (groups (run S K cs st1) r)"
    by (rule exists_run)
  have "nullifierUsed st1 r (nullifier p)"
    by (simp add: f(6))
  then have used: "nullifierUsed (run S K cs st1) r (nullifier p)"
    by (rule nullifierUsed_run)
  with ex assms(2) show ?thesis
    by (simp add: validateSignal_used)
qed

theorem C1_witness:
  "validateSignal stub_semaphore stub_keccak256 alice 0 proof_N1 st_group0 = (Inr (), st_signal1) \<and>
   nullifier replay_N1 = nullifier proof_N1 \<and>
   nullifierUsed (run stub_semaphore stub_keccak256 [(bob, JoinGroup 0 5)] st_signal1) 0
     (nullifier proof_N1) \<and>
   validateSignal stub_semaphore stub_keccak256 bob 0 replay_N1
       (run stub_semaphore stub_keccak256 [(bob, JoinGroup 0 5)] st_signal1) =
     (Inl Nullifier_already_used,
      run stub_semaphore stub_keccak256 [(bob, JoinGroup 0 5)] st_signal1)"
proof -
  have h1: "validateSignal stub_semaphore stub_keccak256 alice 0 proof_N1 st_group0 =
      (Inr (), st_signal1)"
    by (simp add: scenario_defs)
  have h2: "nullifier replay_N1 = nullifier proof_N1"
    by (simp add: scenario_defs)
  from C1_nullifier_accepted_at_most_once [OF h1 h2] h1 h2 show ?thesis
    by blast
qed

subsection \<open>Registry ids are dense\<close>

text \<open>
  Claim C2. Run any sequence of transactions from the constructor's state. The registry ids
  returned by the \<^verbatim>\<open>createGroup\<close> calls that succeed are \<open>0, 1, 2, \<dots>\<close> in call order,
  they are pairwise distinct, their number is \<open>nextGroupIndex\<close>, and in the state
  reached a record with \<open>exists = True\<close> is stored at \<open>r\<close> exactly when
  \<open>r < nextGroupIndex\<close>. A \<^verbatim>\<open>createGroup\<close> that fails (the Semaphore call reverts, or the
  counter would overflow) assigns nothing.
\<close>

theorem C2_registry_ids_dense:
  "assigned S K cs (constructor e0) =
     map of_nat [0 ..< length (assigned S K cs (constructor e0))] \<and>
   distinct (assigned S K cs (constructor e0)) \<and>
   unat (nextGroupIndex (run S K cs (constructor e0))) =
     length (assigned S K cs (constructor e0)) \<and>
   (\<forall>r. exists (groups (run S K cs (constructor e0)) r) \<longleftrightarrow>
        r < nextGroupIndex (run S K cs (constructor e0)))"
proof -
  let ?st = "constructor e0 :: 'a Whisp"
  have z: "unat (nextGroupIndex ?st) = 0"
    by (simp add: constructor_def)
  from assigned_from [of S K cs ?st] obtain k where
    a: "assigned S K cs ?st = map of_nat [0 ..< k]"
    and n: "unat (nextGroupIndex (run S K cs ?st)) = k"
    unfolding z by auto
  have k: "length (assigned S K cs ?st) = k"
    unfolding a by simp
  have "k < 2 ^ LENGTH(256)"
    using unsigned_less [of "nextGroupIndex (run S K cs ?st)", where 'a = nat]
    unfolding n .
  then have "distinct (map (of_nat :: nat \<Rightarrow> uint256) [0 ..< k])"
    by (rule distinct_of_nat_upt)
  then have d: "distinct (assigned S K cs ?st)"
    unfolding a .
  have "registry_inv (run S K cs ?st)"
    by (rule registry_inv_run) (rule registry_inv_constructor)
  then have i: "\<forall>r. exists (groups (run S K cs ?st) r) \<longleftrightarrow>
        r < nextGroupIndex (run S K cs ?st)"
    unfolding registry_inv_def by blast
  from a have "assigned S K cs ?st = map of_nat [0 ..< length (assigned S K cs ?st)]"
    unfolding k .
  moreover from n have "unat (nextGroupIndex (run S K cs ?st)) = length (assigned S K cs ?st)"
    unfolding k .
  ultimately show ?thesis
    using d i by (intro conjI)
qed

theorem C2_witness:
  "assigned stub_semaphore stub_keccak256
     [(alice, CreateGroup ''a'' ''b'' [] []), (bob, JoinGroup 0 5),
      (bob, CreateGroup ''c'' ''d'' [] []), (bob, JoinGroup 5 5),
      (alice, CreateGroup ''e'' ''f'' [] [])] (constructor 0) = [0, 1, 2] \<and>
   nextGroupIndex (run stub_semaphore stub_keccak256
     [(alice, CreateGroup ''a'' ''b'' [] []), (bob, JoinGroup 0 5),
      (bob, CreateGroup ''c'' ''d'' [] []), (bob, JoinGroup 5 5),
      (alice, CreateGroup ''e'' ''f'' [] [])] (constructor 0)) = 3 \<and>
   exists (groups (run stub_semaphore stub_keccak256
     [(alice, CreateGroup ''a'' ''b'' [] []), (bob, JoinGroup 0 5),
      (bob, CreateGroup ''c'' ''d'' [] []), (bob, JoinGroup 5 5),
      (alice, CreateGroup ''e'' ''f'' [] [])] (constructor 0)) 2) \<and>
   \<not> exists (groups (run stub_semaphore stub_keccak256
     [(alice, CreateGroup ''a'' ''b'' [] []), (bob, JoinGroup 0 5),
      (bob, CreateGroup ''c'' ''d'' [] []), (bob, JoinGroup 5 5),
      (alice, CreateGroup ''e'' ''f'' [] [])] (constructor 0)) 3)"
proof -
  let ?cs = "[(alice, CreateGroup ''a'' ''b'' [] []), (bob, JoinGroup 0 5),
      (bob, CreateGroup ''c'' ''d'' [] []), (bob, JoinGroup 5 5),
      (alice, CreateGroup ''e'' ''f'' [] [])]"
  let ?st = "run stub_semaphore stub_keccak256 ?cs (constructor 0)"
  note T = C2_registry_ids_dense [of stub_semaphore stub_keccak256 ?cs 0]
  have a: "assigned stub_semaphore stub_keccak256 ?cs (constructor 0) = [0, 1, 2]"
    by (simp add: scenario_defs)
  have n: "nextGroupIndex ?st = 3"
    by (simp add: scenario_defs)
  from T have "exists (groups ?st 2) \<longleftrightarrow> 2 < nextGroupIndex ?st"
    and "exists (groups ?st 3) \<longleftrightarrow> 3 < nextGroupIndex ?st"
    by blast+
  then have "exists (groups ?st 2)" and "\<not> exists (groups ?st 3)"
    unfolding n by simp_all
  with a n show ?thesis by blast
qed

subsection \<open>Joining\<close>

text \<open>
  Claim C3. \<^verbatim>\<open>joinGroup\<close> fails with "Group not found" when no record exists for the
  registry id. After one \<^verbatim>\<open>joinGroup\<close> for \<open>r\<close> by a caller has succeeded, and after any
  further sequence of transactions, the caller is a member of \<open>r\<close> and every further
  \<^verbatim>\<open>joinGroup\<close> for \<open>r\<close> by the same caller, with any commitment and for any behaviour
  \<open>S'\<close> of the Semaphore contract, fails with "Already joined" and leaves the whole
  state, the Semaphore contract's included, as it is.
\<close>

theorem C3_join_at_most_once:
  "(\<not> exists (groups st0 r0) \<longrightarrow>
      joinGroup S env0 r0 c0 st0 = (Inl Group_not_found, st0)) \<and>
   (joinGroup S env r c st = (Inr (), st1) \<and> msg_sender env' = msg_sender env \<longrightarrow>
      isMember (run S K cs st1) r (msg_sender env) \<and>
      joinGroup S' env' r c' (run S K cs st1) = (Inl Already_joined, run S K cs st1))"
proof (intro conjI impI)
  assume "\<not> exists (groups st0 r0)"
  then show "joinGroup S env0 r0 c0 st0 = (Inl Group_not_found, st0)"
    by (simp add: joinGroup_def)
next
  assume a: "joinGroup S env r c st = (Inr (), st1) \<and> msg_sender env' = msg_sender env"
  then have j: "joinGroup S env r c st = (Inr (), st1)" by simp
  note f = joinGroup_fields [OF j]
  have "exists (groups st1 r)"
    using f(1) by (simp add: f(4))
  then have ex: "exists (groups (run S K cs st1) r)"
    by (rule exists_run)
  have "hasJoined st1 r (msg_sender env)"
    by (simp add: f(5))
  then have m: "hasJoined (run S K cs st1) r (msg_sender env)"
    by (rule hasJoined_run)
  then show "isMember (run S K cs st1) r (msg_sender env)"
    by (simp add: isMember_def)
  from a m have "hasJoined (run S K cs st1) r (msg_sender env')"
    by simp
  with ex show "joinGroup S' env' r c' (run S K cs st1) =
      (Inl Already_joined, run S K cs st1)"
    by (rule joinGroup_joined)
qed

theorem C3_witness:
  "\<not> exists (groups st_group0 7) \<and>
   joinGroup stub_semaphore bob 7 5 st_group0 = (Inl Group_not_found, st_group0) \<and>
   joinGroup stub_semaphore alice 0 5 st_group0 =
     (Inr (), snd (joinGroup stub_semaphore alice 0 5 st_group0)) \<and>
   isMember (run stub_semaphore stub_keccak256 [(bob, JoinGroup 0 9)]
      (snd (joinGroup stub_semaphore alice 0 5 st_group0))) 0 (msg_sender alice) \<and>
   joinGroup stub_semaphore alice 0 6
       (run stub_semaphore stub_keccak256 [(bob, JoinGroup 0 9)]
          (snd (joinGroup stub_semaphore alice 0 5 st_group0))) =
     (Inl Already_joined,
      run stub_semaphore stub_keccak256 [(bob, JoinGroup 0 9)]
        (snd (joinGroup stub_semaphore alice 0 5 st_group0)))"
proof -
  have h1: "\<not> exists (groups st_group0 7)"
    by (simp add: scenario_defs)
  have h2: "joinGroup stub_semaphore alice 0 5 st_group0 =
     (Inr (), snd (joinGroup stub_semaphore alice 0 5 st_group0))"
    by (simp add: scenario_defs)
  from C3_join_at_most_once [of st_group0 7 stub_semaphore bob 5 alice 0 5 st_group0
      "snd (joinGroup stub_semaphore alice 0 5 st_group0)" alice stub_keccak256
      "[(bob, JoinGroup 0 9)]" stub_semaphore 6] h1 h2
  show ?thesis by blast
qed

subsection \<open>Failing calls change nothing\<close>

text \<open>
  Claim C4. When the body of \<^verbatim>\<open>joinGroup\<close> or of \<^verbatim>\<open>validateSignal\<close> stops with an
  error, the state at that point (group table, join markers, nullifier marks,
  \<open>nextGroupIndex\<close>, the Semaphore contract's state and the event log) is the state
  before the call: no write precedes the last point of failure. This includes the case
  where the call into the Semaphore contract is what fails; the error is then the
  Semaphore contract's.
\<close>

theorem C4_failure_leaves_state_unchanged:
  "(joinGroup S env r c st = (Inl e, st') \<longrightarrow> st' = st) \<and>
   (validateSignal S K env r p st = (Inl e, st') \<longrightarrow> st' = st) \<and>
   (exists (groups st r) \<and> \<not> hasJoined st r (msg_sender env) \<and>
    sem_addMember S (groupId (groups st r)) c (semaphore st) = Inl x \<longrightarrow>
      joinGroup S env r c st = (Inl (Semaphore_reverted x), st)) \<and>
   (exists (groups st r) \<and> \<not> nullifierUsed st r (nullifier p) \<and>
    sem_validateProof S (groupId (groups st r)) p (semaphore st) = Inl x \<longrightarrow>
      validateSignal S K env r p st = (Inl (Semaphore_reverted x), st))"
proof (intro conjI impI)
  assume "joinGroup S env r c st = (Inl e, st')"
  then show "st' = st" by (rule joinGroup_Inl)
next
  assume "validateSignal S K env r p st = (Inl e, st')"
  then show "st' = st" by (rule validateSignal_Inl)
next
  assume "exists (groups st r) \<and> \<not> hasJoined st r (msg_sender env) \<and>
    sem_addMember S (groupId (groups st r)) c (semaphore st) = Inl x"
  then show "joinGroup S env r c st = (Inl (Semaphore_reverted x), st)"
    by (simp add: joinGroup_def)
next
  assume "exists (groups st r) \<and> \<not> nullifierUsed st r (nullifier p) \<and>
    sem_validateProof S (groupId (groups st r)) p (semaphore st) = Inl x"
  then show "validateSignal S K env r p st = (Inl (Semaphore_reverted x), st)"
    by (simp add: validateSignal_def)
qed

theorem C4_witness:
  "joinGroup stub_semaphore bob 0 0 st_group0 = (Inl (Semaphore_reverted ()), st_group0) \<and>
   validateSignal stub_semaphore stub_keccak256 bob 0 bad_proof st_group0 =
     (Inl (Semaphore_reverted ()), st_group0) \<and>
   exists (groups st_group0 0) \<and> \<not> hasJoined st_group0 0 (msg_sender bob) \<and>
   sem_addMember stub_semaphore (groupId (groups st_group0 0)) 0 (semaphore st_group0) =
     Inl () \<and>
   \<not> nullifierUsed st_group0 0 (nullifier bad_proof) \<and>
   sem_validateProof stub_semaphore (groupId (groups st_group0 0)) bad_proof
     (semaphore st_group0) = Inl ()"
proof -
  note T = C4_failure_leaves_state_unchanged [of stub_semaphore bob 0 0 st_group0
      "Semaphore_reverted ()" st_group0 stub_keccak256 bad_proof "()"]
  have h1: "exists (groups st_group0 0) \<and> \<not> hasJoined st_group0 0 (msg_sender bob) \<and>
    sem_addMember stub_semaphore (groupId (groups st_group0 0)) 0 (semaphore st_group0) =
      Inl ()"
    by (simp add: scenario_defs)
  have h2: "exists (groups st_group0 0) \<and> \<not> nullifierUsed st_group0 0 (nullifier bad_proof) \<and>
    sem_validateProof stub_semaphore (groupId (groups st_group0 0)) bad_proof
      (semaphore st_group0) = Inl ()"
    by (simp add: scenario_defs bad_proof_def)
  from T h1 have j: "joinGroup stub_semaphore bob 0 0 st_group0 =
      (Inl (Semaphore_reverted ()), st_group0)"
    by blast
  from T h2 have v: "validateSignal stub_semaphore stub_keccak256 bob 0 bad_proof st_group0 =
      (Inl (Semaphore_reverted ()), st_group0)"
    by blast
  from h1 h2 j v show ?thesis by blast
qed

subsection \<open>The emitted hashes\<close>

text \<open>
  Claim C5. The \<open>signalHash\<close> and \<open>scopeHash\<close> of the event a successful
  \<^verbatim>\<open>validateSignal\<close> emits are \<^verbatim>\<open>keccak256\<close> of the message bytes, and of the scope bytes,
  shifted right by 8 bits. So two successful calls, in any two states, for any two
  groups, against any two Semaphore contracts, whose proofs carry equal message bytes
  emit equal \<open>signalHash\<close>, and equal scope bytes give equal \<open>scopeHash\<close>.
\<close>

theorem C5_hashes_are_functions_of_the_bytes:
  assumes "validateSignal S1 K env1 r1 p1 st1 = (Inr (), st1')"
    and "validateSignal S2 K env2 r2 p2 st2 = (Inr (), st2')"
  shows "\<exists>sh1 sc1 sh2 sc2.
      signal_hashes (last (logs st1')) = Some (sh1, sc1) \<and>
      signal_hashes (last (logs st2')) = Some (sh2, sc2) \<and>
      sh1 = drop_bit 8 (K (message p1)) \<and> sc1 = drop_bit 8 (K (scope p1)) \<and>
      sh2 = drop_bit 8 (K (message p2)) \<and> sc2 = drop_bit 8 (K (scope p2)) \<and>
      (message p1 = message p2 \<longrightarrow> sh1 = sh2) \<and>
      (scope p1 = scope p2 \<longrightarrow> sc1 = sc2)"
  using validateSignal_hashes [OF assms(1)] validateSignal_hashes [OF assms(2)]
  by simp

theorem C5_witness:
  "validateSignal stub_semaphore stub_keccak256 alice 0 proof_N1 st_group0 =
     (Inr (), st_signal1) \<and>
   validateSignal stub_semaphore stub_keccak256 bob 1 proof_N2 st_two =
     (Inr (), snd (validateSignal stub_semaphore stub_keccak256 bob 1 proof_N2 st_two)) \<and>
   message proof_N1 = message proof_N2 \<and> scope proof_N1 = scope proof_N2 \<and>
   signal_hashes (last (logs st_signal1)) = Some (5, 5) \<and>
   signal_hashes (last (logs
     (snd (validateSignal stub_semaphore stub_keccak256 bob 1 proof_N2 st_two)))) =
     Some (5, 5)"
proof -
  have h1: "validateSignal stub_semaphore stub_keccak256 alice 0 proof_N1 st_group0 =
     (Inr (), st_signal1)"
    by (simp add: scenario_defs)
  have h2: "validateSignal stub_semaphore stub_keccak256 bob 1 proof_N2 st_two =
     (Inr (), snd (validateSignal stub_semaphore stub_keccak256 bob 1 proof_N2 st_two))"
    by (simp add: scenario_defs st_two_def proof_N2_def)
  have m: "message proof_N1 = message proof_N2" "scope proof_N1 = scope proof_N2"
    by (simp_all add: proof_N1_def proof_N2_def)
  have k: "drop_bit 8 (stub_keccak256 (message proof_N1)) = 5"
    "drop_bit 8 (stub_keccak256 (scope proof_N1)) = 5"
    by (simp_all add: proof_N1_def stub_keccak256_def drop_bit_push_bit)
  from C5_hashes_are_functions_of_the_bytes [OF h1 h2] m k
  have "signal_hashes (last (logs st_signal1)) = Some (5, 5)"
    and "signal_hashes (last (logs
     (snd (validateSignal stub_semaphore stub_keccak256 bob 1 proof_N2 st_two)))) =
     Some (5, 5)"
    by auto
  with h1 h2 m show ?thesis by blast
qed

text \<open>
  Claim C10. Both hashes of the event a successful \<^verbatim>\<open>validateSignal\<close> emits are the
  256-bit digest shifted right by 8 bits; each is below \<open>2 ^ 248\<close>, and its top 8 bits
  are zero.
\<close>

theorem C10_hashes_below_2_pow_248:
  assumes "validateSignal S K env r p st = (Inr (), st')"
  shows "\<exists>sh sc.
      signal_hashes (last (logs st')) = Some (sh, sc) \<and>
      sh = drop_bit 8 (K (message p)) \<and> sc = drop_bit 8 (K (scope p)) \<and>
      unat sh < 2 ^ 248 \<and> unat sc < 2 ^ 248 \<and>
      drop_bit 248 sh = 0 \<and> drop_bit 248 sc = 0"
proof (intro exI conjI)
  show "signal_hashes (last (logs st')) =
      Some (drop_bit 8 (K (message p)), drop_bit 8 (K (scope p)))"
    using assms by (rule validateSignal_hashes)
qed (rule refl drop_bit_8_bound drop_bit_8_top)+

theorem C10_witness:
  "validateSignal stub_semaphore stub_keccak256 alice 0 proof_N1 st_group0 =
     (Inr (), st_signal1) \<and>
   signal_hashes (last (logs st_signal1)) = Some (5, 5) \<and>
   unat (5 :: uint256) < 2 ^ 248"
proof -
  have h: "validateSignal stub_semaphore stub_keccak256 alice 0 proof_N1 st_group0 =
     (Inr (), st_signal1)"
    by (simp add: scenario_defs)
  have k: "drop_bit 8 (stub_keccak256 (message proof_N1)) = 5"
    "drop_bit 8 (stub_keccak256 (scope proof_N1)) = 5"
    by (simp_all add: proof_N1_def stub_keccak256_def drop_bit_push_bit)
  from C10_hashes_below_2_pow_248 [OF h] obtain sh sc where
    "signal_hashes (last (logs st_signal1)) = Some (sh, sc)"
    and "sh = drop_bit 8 (stub_keccak256 (message proof_N1))"
    and "sc = drop_bit 8 (stub_keccak256 (scope proof_N1))"
    and "unat sh < 2 ^ 248"
    by blast
  with h show ?thesis
    unfolding k by blast
qed

subsection \<open>Reading an unknown registry id\<close>

text \<open>
  Claim C6. In every state reachable from the constructor's, \<^verbatim>\<open>getGroupInfo\<close> at a
  registry id \<open>r\<close> with \<open>nextGroupIndex \<le> r\<close> returns the zero record, whose
  \<open>exists\<close> field is false. \<^verbatim>\<open>getGroupInfo\<close> is a plain read of the mapping: it has no
  failing path.
\<close>

theorem C6_getGroupInfo_unknown_id:
  assumes "nextGroupIndex (run S K cs (constructor e0)) \<le> r"
  shows "getGroupInfo (run S K cs (constructor e0)) r = zero_GroupInfo \<and>
         \<not> exists (getGroupInfo (run S K cs (constructor e0)) r)"
proof -
  have "registry_inv (run S K cs (constructor e0))"
    by (rule registry_inv_run) (rule registry_inv_constructor)
  moreover from assms have "\<not> r < nextGroupIndex (run S K cs (constructor e0))"
    by simp
  ultimately have "groups (run S K cs (constructor e0)) r = zero_GroupInfo"
    unfolding registry_inv_def by blast
  then show ?thesis
    by (simp add: getGroupInfo_def zero_GroupInfo_def)
qed

theorem C6_witness:
  "nextGroupIndex (run stub_semaphore stub_keccak256
      [(alice, CreateGroup ''zk-Builders'' ''builders'' [] ''DAO'')] (constructor 0)) \<le> 1 \<and>
   getGroupInfo (run stub_semaphore stub_keccak256
      [(alice, CreateGroup ''zk-Builders'' ''builders'' [] ''DAO'')] (constructor 0)) 1 =
     zero_GroupInfo \<and>
   \<not> exists (getGroupInfo (run stub_semaphore stub_keccak256
      [(alice, CreateGroup ''zk-Builders'' ''builders'' [] ''DAO'')] (constructor 0)) 1)"
proof -
  have h: "nextGroupIndex (run stub_semaphore stub_keccak256
      [(alice, CreateGroup ''zk-Builders'' ''builders'' [] ''DAO'')] (constructor 0)) \<le> 1"
    by (simp add: scenario_defs)
  from C6_getGroupInfo_unknown_id [OF h] h show ?thesis by blast
qed

subsection \<open>Groups do not interfere\<close>

text \<open>
  Claim C7. A successful \<^verbatim>\<open>validateSignal\<close> for \<open>r1\<close> leaves the nullifier marks, the
  join markers and the record of every other registry id \<open>r2\<close> as they were; and if
  \<open>r2\<close> exists, the nullifier was not yet used for \<open>r2\<close>, and the verifier accepts a
  proof for \<open>r2\<close> carrying the same nullifier, then \<^verbatim>\<open>validateSignal\<close> for \<open>r2\<close>
  with that proof succeeds. Likewise a successful \<^verbatim>\<open>joinGroup\<close> for one registry id
  and a successful \<^verbatim>\<open>createGroup\<close> leave every other registry id's nullifier marks,
  join markers and record unchanged.
\<close>

theorem C7_groups_do_not_interfere:
  "(validateSignal S K env r1 p st = (Inr (), st') \<and> r2 \<noteq> r1 \<longrightarrow>
      nullifierUsed st' r2 = nullifierUsed st r2 \<and>
      hasJoined st' r2 = hasJoined st r2 \<and>
      groups st' r2 = groups st r2 \<and>
      (exists (groups st r2) \<and> \<not> nullifierUsed st r2 (nullifier p) \<and>
       nullifier p2 = nullifier p \<and>
       sem_validateProof S (groupId (groups st r2)) p2 (semaphore st') = Inr e2 \<longrightarrow>
         fst (validateSignal S K env2 r2 p2 st') = Inr ())) \<and>
   (joinGroup S envj j1 c stj = (Inr (), stj') \<and> j2 \<noteq> j1 \<longrightarrow>
      nullifierUsed stj' j2 = nullifierUsed stj j2 \<and>
      hasJoined stj' j2 = hasJoined stj j2 \<and>
      groups stj' j2 = groups stj j2) \<and>
   (createGroup S envc n d i ct stc = (Inr c1, stc') \<and> c2 \<noteq> c1 \<longrightarrow>
      nullifierUsed stc' c2 = nullifierUsed stc c2 \<and>
      hasJoined stc' c2 = hasJoined stc c2 \<and>
      groups stc' c2 = groups stc c2)"
proof (intro conjI impI)
  assume a: "validateSignal S K env r1 p st = (Inr (), st') \<and> r2 \<noteq> r1"
  then have v: "validateSignal S K env r1 p st = (Inr (), st')" and ne: "r2 \<noteq> r1"
    by simp_all
  note f = validateSignal_fields [OF v]
  show n: "nullifierUsed st' r2 = nullifierUsed st r2"
    using ne by (simp add: f(6))
  show "hasJoined st' r2 = hasJoined st r2"
    by (simp add: f(5))
  show g: "groups st' r2 = groups st r2"
    by (simp add: f(4))
  assume b: "exists (groups st r2) \<and> \<not> nullifierUsed st r2 (nullifier p) \<and>
       nullifier p2 = nullifier p \<and>
       sem_validateProof S (groupId (groups st r2)) p2 (semaphore st') = Inr e2"
  then have "exists (groups st' r2)" and "\<not> nullifierUsed st' r2 (nullifier p2)"
    and "sem_validateProof S (groupId (groups st' r2)) p2 (semaphore st') = Inr e2"
    by (simp_all add: n g)
  then show "fst (validateSignal S K env2 r2 p2 st') = Inr ()"
    by (simp add: validateSignal_def Let_def)
next
  assume a: "joinGroup S envj j1 c stj = (Inr (), stj') \<and> j2 \<noteq> j1"
  then have j: "joinGroup S envj j1 c stj = (Inr (), stj')" and ne: "j2 \<noteq> j1"
    by simp_all
  note f = joinGroup_fields [OF j]
  show "nullifierUsed stj' j2 = nullifierUsed stj j2"
    by (simp add: f(6))
  show "hasJoined stj' j2 = hasJoined stj j2"
    using ne by (simp add: f(5))
  show "groups stj' j2 = groups stj j2"
    by (simp add: f(4))
next
  assume a: "createGroup S envc n d i ct stc = (Inr c1, stc') \<and> c2 \<noteq> c1"
  then have j: "createGroup S envc n d i ct stc = (Inr c1, stc')" and ne: "c2 \<noteq> c1"
    by simp_all
  note f = createGroup_fields [OF j]
  show "nullifierUsed stc' c2 = nullifierUsed stc c2"
    by (simp add: f(7))
  show "hasJoined stc' c2 = hasJoined stc c2"
    by (simp add: f(6))
  show "groups stc' c2 = groups stc c2"
    using ne by (rule f(5))
qed

theorem C7_witness:
  "validateSignal stub_semaphore stub_keccak256 alice 0 proof_N1 st_two =
     (Inr (), st_two_signal) \<and>
   nullifierUsed st_two_signal 0 (nullifier proof_N1) \<and>
   nullifierUsed st_two_signal 1 = nullifierUsed st_two 1 \<and>
   fst (validateSignal stub_semaphore stub_keccak256 bob 1 proof_N1 st_two_signal) = Inr () \<and>
   joinGroup stub_semaphore bob 0 5 st_two = (Inr (), st_two_join) \<and>
   hasJoined st_two_join 1 = hasJoined st_two 1 \<and>
   createGroup stub_semaphore bob ''voters'' ''ballots'' [] ''Vote'' st_group0 =
     (Inr 1, st_two) \<and>
   groups st_two 0 = groups st_group0 0"
proof -
  note T = C7_groups_do_not_interfere [of stub_semaphore stub_keccak256 alice 0 proof_N1
      st_two st_two_signal 1 proof_N1 2 bob bob 0 5 st_two st_two_join 1
      bob "''voters''" "''ballots''" "[]" "''Vote''" st_group0 1 st_two 0]
  have v: "validateSignal stub_semaphore stub_keccak256 alice 0 proof_N1 st_two =
     (Inr (), st_two_signal)"
    by (simp add: scenario_defs st_two_def st_two_signal_def)
  have u: "nullifierUsed st_two_signal 0 (nullifier proof_N1)"
    by (simp add: scenario_defs st_two_def st_two_signal_def)
  have h: "exists (groups st_two 1) \<and> \<not> nullifierUsed st_two 1 (nullifier proof_N1) \<and>
       nullifier proof_N1 = nullifier proof_N1 \<and>
       sem_validateProof stub_semaphore (groupId (groups st_two 1)) proof_N1
         (semaphore st_two_signal) = Inr 2"
    by (simp add: scenario_defs st_two_def st_two_signal_def)
  have j: "joinGroup stub_semaphore bob 0 5 st_two = (Inr (), st_two_join)"
    by (simp add: scenario_defs st_two_def st_two_join_def)
  have c: "createGroup stub_semaphore bob ''voters'' ''ballots'' [] ''Vote'' st_group0 =
     (Inr 1, st_two)"
    by (simp add: scenario_defs st_two_def)
  have ne: "(1 :: uint256) \<noteq> 0" "(0 :: uint256) \<noteq> 1"
    by simp_all
  from T v h ne have "nullifierUsed st_two_signal 1 = nullifierUsed st_two 1"
    and "fst (validateSignal stub_semaphore stub_keccak256 bob 1 proof_N1 st_two_signal) =
      Inr ()"
    by blast+
  moreover from T j ne have "hasJoined st_two_join 1 = hasJoined st_two 1"
    by blast
  moreover from T c ne have "groups st_two 0 = groups st_group0 0"
    by blast
  ultimately show ?thesis
    using v u j c by blast
qed

subsection \<open>What a successful signal produces\<close>

text \<open>
  Claim C8. (As the contract has it.) A successful \<^verbatim>\<open>validateSignal\<close> appends exactly
  one event to the log, \<^verbatim>\<open>SignalSent\<close> with the registry id, the Semaphore group id, the
  two hashes, the nullifier and the timestamp, and returns no value: the return data of
  the transaction is empty.
\<close>

theorem C8_signal_emitted_once_nothing_returned:
  assumes "validateSignal S K env r p st = (Inr u, st')"
  shows "logs st' = logs st @
           [SignalSent r (groupId (groups st r)) (field_hash K (message p))
              (field_hash K (scope p)) (nullifier p) (ucast (block_timestamp env))] \<and>
         exec S K (env, ValidateSignal r p) st = (Inr [], st')"
proof
  show "logs st' = logs st @
           [SignalSent r (groupId (groups st r)) (field_hash K (message p))
              (field_hash K (scope p)) (nullifier p) (ucast (block_timestamp env))]"
    using assms by (rule validateSignal_logs)
  show "exec S K (env, ValidateSignal r p) st = (Inr [], st')"
    using assms by (simp add: transact_def)
qed

theorem C8_witness:
  "validateSignal stub_semaphore stub_keccak256 alice 0 proof_N1 st_group0 =
     (Inr (), st_signal1) \<and>
   logs st_signal1 = logs st_group0 @ [SignalSent 0 0 5 5 11 1700000000] \<and>
   exec stub_semaphore stub_keccak256 (alice, ValidateSignal 0 proof_N1) st_group0 =
     (Inr [], st_signal1)"
proof -
  have h: "validateSignal stub_semaphore stub_keccak256 alice 0 proof_N1 st_group0 =
     (Inr (), st_signal1)"
    by (simp add: scenario_defs)
  have k: "groupId (groups st_group0 0) = 0"
    "field_hash stub_keccak256 (message proof_N1) = 5"
    "field_hash stub_keccak256 (scope proof_N1) = 5"
    "nullifier proof_N1 = 11"
    "(ucast (block_timestamp alice) :: uint64) = 1700000000"
    by (simp_all add: scenario_defs drop_bit_push_bit)
  from C8_signal_emitted_once_nothing_returned [OF h] h show ?thesis
    unfolding k by blast
qed

text \<open>
  Claim C8 as the specification states it has the call return a Signal value carrying
  the six fields. In the scenario the first signal in group 0 succeeds; its return data
  is empty, and so is not the six words of the event.
\<close>

theorem C8_counterexample:
  "fst (exec stub_semaphore stub_keccak256 (alice, ValidateSignal 0 proof_N1) st_group0) =
     Inr [] \<and>
   fst (exec stub_semaphore stub_keccak256 (alice, ValidateSignal 0 proof_N1) st_group0) \<noteq>
     Inr [0, 0, 5, 5, 11, 1700000000]"
  by (simp add: scenario_defs)

subsection \<open>Creating a group does not join it\<close>

text \<open>
  Claim C9. When \<^verbatim>\<open>createGroup\<close>, called in a state reachable from the constructor's,
  returns registry id \<open>r\<close>, no account \<open>a\<close> (the creator included) is a member of
  \<open>r\<close>; and after any further sequence of transactions \<open>a\<close> is a member of \<open>r\<close>
  exactly when one of them was a \<^verbatim>\<open>joinGroup\<close> for \<open>r\<close> sent by \<open>a\<close> that
  succeeded.
\<close>

theorem C9_creating_is_not_joining:
  assumes "createGroup S env n d i c (run S K cs0 (constructor e0)) = (Inr r, st1)"
  shows "\<not> isMember st1 r a \<and>
         (isMember (run S K cs st1) r a \<longleftrightarrow> joined_in S K r a cs st1)"
proof -
  let ?st = "run S K cs0 (constructor e0)"
  note f = createGroup_fields [OF assms]
  have "registry_inv ?st"
    by (rule registry_inv_run) (rule registry_inv_constructor)
  moreover have "\<not> r < nextGroupIndex ?st"
    by (simp add: f(2))
  ultimately have "hasJoined ?st r = (\<lambda>_. False)"
    unfolding registry_inv_def by blast
  then have n: "\<not> isMember st1 r a"
    by (simp add: isMember_def f(6))
  with isMember_run [of S K cs st1 r a] show ?thesis
    by simp
qed

theorem C9_witness:
  "createGroup stub_semaphore alice ''zk-Builders'' ''builders'' [] ''DAO''
      (run stub_semaphore stub_keccak256 [] (constructor 0)) = (Inr 0, st_group0) \<and>
   \<not> isMember st_group0 0 (msg_sender alice) \<and>
   \<not> isMember (run stub_semaphore stub_keccak256
         [(bob, JoinGroup 0 9), (alice, JoinGroup 0 0)] st_group0) 0 (msg_sender alice) \<and>
   isMember (run stub_semaphore stub_keccak256
         [(bob, JoinGroup 0 9), (alice, JoinGroup 0 5)] st_group0) 0 (msg_sender alice)"
proof -
  have h: "createGroup stub_semaphore alice ''zk-Builders'' ''builders'' [] ''DAO''
      (run stub_semaphore stub_keccak256 [] (constructor 0)) = (Inr 0, st_group0)"
    by (simp add: scenario_defs)
  have j1: "\<not> joined_in stub_semaphore stub_keccak256 0 (msg_sender alice)
         [(bob, JoinGroup 0 9), (alice, JoinGroup 0 0)] st_group0"
    by (simp add: scenario_defs)
  have j2: "joined_in stub_semaphore stub_keccak256 0 (msg_sender alice)
         [(bob, JoinGroup 0 9), (alice, JoinGroup 0 5)] st_group0"
    by (simp add: scenario_defs)
  from C9_creating_is_not_joining [OF h, of "msg_sender alice"] h j1 j2
  show ?thesis by blast
qed

end
